theory Spec2Isabelle
  imports Complex_Main "HOL-Library.Sublist" "HOL-Library.Word"
begin

section \<open>FadeForge: the gradient mask of CanvasWorkspace and the export name of App\<close>

text \<open>
  The embedding follows \<^verbatim>\<open>src/types.ts\<close>, the render effect of the
  \<^verbatim>\<open>CanvasWorkspace\<close> component and \<^verbatim>\<open>handleDownload\<close> of \<^verbatim>\<open>src/App.tsx\<close>.
  A JavaScript \<^verbatim>\<open>number\<close> is idealised as a \<^typ>\<open>real\<close>: finite values only, no
  rounding of doubles, no NaN and no infinities. Image and canvas sizes are the
  \<^verbatim>\<open>unsigned long\<close> attributes of the DOM, hence \<^typ>\<open>nat\<close>.
\<close>

subsection \<open>types.ts\<close>

datatype GradientType = linear | radial

record GradientSettings =
  angle :: real
  startPoint :: real
  endPoint :: real
  invert :: bool
  type :: GradientType

subsection \<open>App.tsx: the download name\<close>

text \<open>
  \<^verbatim>\<open>String.prototype.split\<close> with a one-character separator: the pieces between
  the separators, in order; a string without the separator is the only piece. The result is
  never empty, so the last case of the inner \<open>case\<close> is not reached.
\<close>

fun split :: "char \<Rightarrow> string \<Rightarrow> string list" where
  "split sep [] = [[]]"
| "split sep (c # cs) =
     (if c = sep then [] # split sep cs
      else (case split sep cs of p # ps \<Rightarrow> (c # p) # ps | [] \<Rightarrow> [[c]]))"

text \<open>\<^verbatim>\<open>Array.prototype.join\<close> with a one-character separator.\<close>

fun join :: "char \<Rightarrow> string list \<Rightarrow> string" where
  "join sep [] = []"
| "join sep [p] = p"
| "join sep (p # q # ps) = p @ sep # join sep (q # ps)"

text \<open>
  The value given to \<^verbatim>\<open>link.download\<close> in \<^verbatim>\<open>handleDownload\<close>;
  \<^verbatim>\<open>nameParts.pop()\<close> removes the last element, which is \<^const>\<open>butlast\<close>.
\<close>

definition downloadName :: "string \<Rightarrow> string" where
  "downloadName fileName =
     (let nameParts = split (CHR ''.'') fileName;
          nameParts' = (if length nameParts > 1 then butlast nameParts else nameParts);
          base = join (CHR ''.'') nameParts'
      in base @ ''-fade.png'')"

subsection \<open>The canvas gradient object\<close>

text \<open>
  A colour as the CSS text \<^verbatim>\<open>rgba(r,g,b,a)\<close> gives it: three channels in 0..255 and
  an alpha in the unit interval.
\<close>

record Color =
  red :: real
  green :: real
  blue :: real
  alpha :: real

definition rgba :: "real \<Rightarrow> real \<Rightarrow> real \<Rightarrow> real \<Rightarrow> Color" where
  "rgba r g b a = \<lparr>red = r, green = g, blue = b, alpha = a\<rparr>"

type_synonym ColorStop = "real \<times> Color"

text \<open>
  The two gradient objects of the 2D context, with the arguments of
  \<^verbatim>\<open>createLinearGradient(x0, y0, x1, y1)\<close> and
  \<^verbatim>\<open>createRadialGradient(x0, y0, r0, x1, y1, r1)\<close> and the colour stops added so far,
  ordered by offset.
\<close>

datatype CanvasGradient =
  LinearGradient real real real real "ColorStop list"
| RadialGradient real real real real real real "ColorStop list"

datatype DOMException = IndexSizeError

fun stops :: "CanvasGradient \<Rightarrow> ColorStop list" where
  "stops (LinearGradient x0 y0 x1 y1 ss) = ss"
| "stops (RadialGradient x0 y0 r0 x1 y1 r1 ss) = ss"

fun withStops :: "CanvasGradient \<Rightarrow> ColorStop list \<Rightarrow> CanvasGradient" where
  "withStops (LinearGradient x0 y0 x1 y1 _) ss = LinearGradient x0 y0 x1 y1 ss"
| "withStops (RadialGradient x0 y0 r0 x1 y1 r1 _) ss = RadialGradient x0 y0 r0 x1 y1 r1 ss"

text \<open>
  A new stop goes behind every stop whose offset is not larger: stops at one offset stay
  in the order in which they were added.
\<close>

fun insertStop :: "ColorStop \<Rightarrow> ColorStop list \<Rightarrow> ColorStop list" where
  "insertStop s [] = [s]"
| "insertStop s (x # xs) = (if fst s < fst x then s # x # xs else x # insertStop s xs)"

text \<open>
  \<^verbatim>\<open>gradient.addColorStop(offset, color)\<close> throws an \<^verbatim>\<open>IndexSizeError\<close> for an
  offset below 0 or above 1.
\<close>

definition addColorStop :: "real \<Rightarrow> Color \<Rightarrow> CanvasGradient \<Rightarrow> DOMException + CanvasGradient" where
  "addColorStop offset color g =
     (if offset < 0 \<or> 1 < offset then Inl IndexSizeError
      else Inr (withStops g (insertStop (offset, color) (stops g))))"

definition createLinearGradient :: "real \<Rightarrow> real \<Rightarrow> real \<Rightarrow> real \<Rightarrow> DOMException + CanvasGradient" where
  "createLinearGradient x0 y0 x1 y1 = Inr (LinearGradient x0 y0 x1 y1 [])"

text \<open>\<^verbatim>\<open>createRadialGradient\<close> throws an \<^verbatim>\<open>IndexSizeError\<close> for a negative radius.\<close>

definition createRadialGradient ::
  "real \<Rightarrow> real \<Rightarrow> real \<Rightarrow> real \<Rightarrow> real \<Rightarrow> real \<Rightarrow> DOMException + CanvasGradient" where
  "createRadialGradient x0 y0 r0 x1 y1 r1 =
     (if r0 < 0 \<or> r1 < 0 then Inl IndexSizeError
      else Inr (RadialGradient x0 y0 r0 x1 y1 r1 []))"

text \<open>A thrown exception ends the effect: the rest of the statements is skipped.\<close>

definition andThen :: "'e + 'a \<Rightarrow> ('a \<Rightarrow> 'e + 'b) \<Rightarrow> 'e + 'b" where
  "andThen m f = (case m of Inl e \<Rightarrow> Inl e | Inr x \<Rightarrow> f x)"

subsection \<open>CanvasWorkspace, step 4: the user stops\<close>

definition safeStart :: "GradientSettings \<Rightarrow> real" where
  "safeStart settings = (let start = startPoint settings / 100 in max 0 (min 1 start))"

definition safeEnd :: "GradientSettings \<Rightarrow> real" where
  "safeEnd settings = (let end = endPoint settings / 100 in max 0 (min 1 end))"

text \<open>The four \<^verbatim>\<open>addColorStop\<close> calls of either branch of \<^verbatim>\<open>if (settings.invert)\<close>.\<close>

definition applyUserStops :: "GradientSettings \<Rightarrow> CanvasGradient \<Rightarrow> DOMException + CanvasGradient" where
  "applyUserStops settings gradient =
     (if invert settings then
        andThen (andThen (andThen
          (addColorStop 0 (rgba 0 0 0 0) gradient)
          (addColorStop (min (safeStart settings) (safeEnd settings)) (rgba 0 0 0 0)))
          (addColorStop (max (safeStart settings) (safeEnd settings)) (rgba 0 0 0 1)))
          (addColorStop 1 (rgba 0 0 0 1))
      else
        andThen (andThen (andThen
          (addColorStop 0 (rgba 0 0 0 1) gradient)
          (addColorStop (min (safeStart settings) (safeEnd settings)) (rgba 0 0 0 1)))
          (addColorStop (max (safeStart settings) (safeEnd settings)) (rgba 0 0 0 0)))
          (addColorStop 1 (rgba 0 0 0 0)))"

text \<open>The offsets handed to \<^verbatim>\<open>addColorStop\<close>, in call order.\<close>

definition stopOffsets :: "GradientSettings \<Rightarrow> real list" where
  "stopOffsets settings =
     [0, min (safeStart settings) (safeEnd settings), max (safeStart settings) (safeEnd settings), 1]"

subsection \<open>Bitmaps and the canvas\<close>

text \<open>
  A pixel of four 8-bit channels. An image holds its pixels as \<^verbatim>\<open>ImageData\<close> does,
  alpha not premultiplied; the bitmap of a canvas holds them premultiplied.
\<close>

record Pixel =
  pxR :: "8 word"
  pxG :: "8 word"
  pxB :: "8 word"
  pxA :: "8 word"

definition transparentBlack :: Pixel where
  "transparentBlack = \<lparr>pxR = 0, pxG = 0, pxB = 0, pxA = 0\<rparr>"

text \<open>
  A decoded image: \<^verbatim>\<open>image.width\<close>, \<^verbatim>\<open>image.height\<close> and its pixels by column
  and row. Only the pixels with \<open>x < width\<close> and \<open>y < height\<close> belong to the bitmap.
\<close>

record Bitmap =
  width :: nat
  height :: nat
  pixel :: "nat \<Rightarrow> nat \<Rightarrow> Pixel"

datatype CompositeOp = SourceOver | DestinationIn

datatype FillStyle = SolidColor Color | Gradient CanvasGradient

text \<open>
  The canvas element with the drawing state of its 2D context; its pixels are the stored,
  premultiplied ones. \<open>has2d\<close> says whether
  \<^verbatim>\<open>canvas.getContext('2d')\<close> gives a context (it gives \<^verbatim>\<open>null\<close> on a canvas
  bound to another context type).
\<close>

record Canvas = Bitmap +
  has2d :: bool
  globalCompositeOperation :: CompositeOp
  fillStyle :: FillStyle

text \<open>Round to nearest and clamp to the 8-bit range, as a store into a pixel channel does.\<close>

definition quantise :: "real \<Rightarrow> 8 word" where
  "quantise v = word_of_nat (nat (round (max 0 (min 255 v))))"

definition toColor :: "Pixel \<Rightarrow> Color" where
  "toColor p = \<lparr>red = real (unat (pxR p)), green = real (unat (pxG p)),
                 blue = real (unat (pxB p)), alpha = real (unat (pxA p)) / 255\<rparr>"

text \<open>
  The bitmap of a canvas keeps premultiplied 8-bit pixels, as the canvases of browsers do:
  each colour channel is stored multiplied by the alpha of its pixel. The Porter-Duff
  operators the effect uses work on these values. The source colour \<open>s\<close> comes in not
  premultiplied and is premultiplied here; every result is rounded into the 8-bit store.
  \<^verbatim>\<open>source-over\<close> adds the source to the canvas pixel scaled by one minus the alpha of
  the source; \<^verbatim>\<open>destination-in\<close> scales all four stored channels of the canvas pixel
  by the alpha of the source.
\<close>

fun compose :: "CompositeOp \<Rightarrow> Color \<Rightarrow> Pixel \<Rightarrow> Pixel" where
  "compose SourceOver s d =
     \<lparr>pxR = quantise (red s * alpha s + real (unat (pxR d)) * (1 - alpha s)),
      pxG = quantise (green s * alpha s + real (unat (pxG d)) * (1 - alpha s)),
      pxB = quantise (blue s * alpha s + real (unat (pxB d)) * (1 - alpha s)),
      pxA = quantise (255 * alpha s + real (unat (pxA d)) * (1 - alpha s))\<rparr>"
| "compose DestinationIn s d =
     \<lparr>pxR = quantise (real (unat (pxR d)) * alpha s),
      pxG = quantise (real (unat (pxG d)) * alpha s),
      pxB = quantise (real (unat (pxB d)) * alpha s),
      pxA = quantise (real (unat (pxA d)) * alpha s)\<rparr>"


text \<open>
  Assigning \<^verbatim>\<open>canvas.width\<close> or \<^verbatim>\<open>canvas.height\<close> clears the bitmap to
  transparent black and resets the drawing state to its defaults.
\<close>

definition resetCanvas :: "Canvas \<Rightarrow> Canvas" where
  "resetCanvas c = c\<lparr>pixel := (\<lambda>x y. transparentBlack),
                      globalCompositeOperation := SourceOver,
                      fillStyle := SolidColor (rgba 0 0 0 1)\<rparr>"

definition setWidth :: "nat \<Rightarrow> Canvas \<Rightarrow> Canvas" where
  "setWidth w c = resetCanvas (c\<lparr>width := w\<rparr>)"

definition setHeight :: "nat \<Rightarrow> Canvas \<Rightarrow> Canvas" where
  "setHeight h c = resetCanvas (c\<lparr>height := h\<rparr>)"

text \<open>
  The pixels a drawing call touches: those of the rectangle that lie on the canvas. A
  pixel off the canvas is never written.
\<close>

definition touched :: "Canvas \<Rightarrow> nat \<Rightarrow> nat \<Rightarrow> nat \<Rightarrow> nat \<Rightarrow> nat \<Rightarrow> nat \<Rightarrow> bool" where
  "touched c x y w h px py =
     (x \<le> px \<and> px < x + w \<and> y \<le> py \<and> py < y + h \<and> px < width c \<and> py < height c)"

definition clearRect :: "nat \<Rightarrow> nat \<Rightarrow> nat \<Rightarrow> nat \<Rightarrow> Canvas \<Rightarrow> Canvas" where
  "clearRect x y w h c =
     c\<lparr>pixel := (\<lambda>px py. if touched c x y w h px py then transparentBlack else pixel c px py)\<rparr>"

definition drawImage :: "Bitmap \<Rightarrow> nat \<Rightarrow> nat \<Rightarrow> Canvas \<Rightarrow> Canvas" where
  "drawImage img dx dy c =
     c\<lparr>pixel := (\<lambda>px py.
          if touched c dx dy (width img) (height img) px py
          then compose (globalCompositeOperation c) (toColor (pixel img (px - dx) (py - dy)))
                 (pixel c px py)
          else pixel c px py)\<rparr>"

subsection \<open>Painting with a gradient\<close>

definition mix :: "Color \<Rightarrow> Color \<Rightarrow> real \<Rightarrow> Color" where
  "mix c1 c2 k = \<lparr>red = red c1 + (red c2 - red c1) * k,
                  green = green c1 + (green c2 - green c1) * k,
                  blue = blue c1 + (blue c2 - blue c1) * k,
                  alpha = alpha c1 + (alpha c2 - alpha c1) * k\<rparr>"

text \<open>
  The colour of a gradient at the axis parameter \<open>t\<close>: the first stop's colour up to
  the first stop, the last stop's colour behind the last one, and between two stops
  the linear interpolation of the four components. Of stops at one offset the earlier
  one ends the piece on its left and the later one starts the piece on its right, so
  the quotient is taken only between two different offsets.
\<close>

fun colorAt :: "ColorStop list \<Rightarrow> real \<Rightarrow> Color" where
  "colorAt [] t = rgba 0 0 0 0"
| "colorAt [(p1, c1)] t = c1"
| "colorAt ((p1, c1) # (p2, c2) # ss) t =
     (if t \<le> p1 then c1
      else if t < p2 then mix c1 c2 ((t - p1) / (p2 - p1))
      else colorAt ((p2, c2) # ss) t)"

text \<open>
  The axis parameter of the point \<open>(px, py)\<close>. A linear gradient projects the point on
  the line from \<open>(x0, y0)\<close> to \<open>(x1, y1)\<close>; with both points equal it paints nothing.
  A radial gradient of two concentric circles takes the distance from the centre between
  the two radii; with equal radii it paints nothing. The effect creates concentric
  circles only, and the cone between circles of different centres is left out.
\<close>

fun gradientParam :: "CanvasGradient \<Rightarrow> real \<Rightarrow> real \<Rightarrow> real option" where
  "gradientParam (LinearGradient x0 y0 x1 y1 ss) px py =
     (if x0 = x1 \<and> y0 = y1 then None
      else Some (((px - x0) * (x1 - x0) + (py - y0) * (y1 - y0)) /
                 ((x1 - x0) * (x1 - x0) + (y1 - y0) * (y1 - y0))))"
| "gradientParam (RadialGradient x0 y0 r0 x1 y1 r1 ss) px py =
     (if x0 = x1 \<and> y0 = y1 then
        (if r0 = r1 then None
         else Some ((sqrt ((px - x0) * (px - x0) + (py - y0) * (py - y0)) - r0) / (r1 - r0)))
      else None)"

fun fillColor :: "FillStyle \<Rightarrow> real \<Rightarrow> real \<Rightarrow> Color" where
  "fillColor (SolidColor c) px py = c"
| "fillColor (Gradient g) px py =
     (case gradientParam g px py of None \<Rightarrow> rgba 0 0 0 0 | Some t \<Rightarrow> colorAt (stops g) t)"

text \<open>\<^verbatim>\<open>fillRect\<close> paints every touched pixel with the fill colour at its centre.\<close>

definition fillRect :: "nat \<Rightarrow> nat \<Rightarrow> nat \<Rightarrow> nat \<Rightarrow> Canvas \<Rightarrow> Canvas" where
  "fillRect x y w h c =
     c\<lparr>pixel := (\<lambda>px py.
          if touched c x y w h px py
          then compose (globalCompositeOperation c)
                 (fillColor (fillStyle c) (real px + 1 / 2) (real py + 1 / 2)) (pixel c px py)
          else pixel c px py)\<rparr>"

subsection \<open>CanvasWorkspace: the render effect\<close>

text \<open>Step 3: the gradient object for a canvas of \<open>w\<close> by \<open>h\<close> pixels.\<close>

definition prepareGradient :: "GradientSettings \<Rightarrow> nat \<Rightarrow> nat \<Rightarrow> DOMException + CanvasGradient" where
  "prepareGradient settings canvasWidth canvasHeight =
     (if type settings = linear then
        (let rad = (angle settings - 90) * (pi / 180);
             w = real canvasWidth;
             h = real canvasHeight;
             cx = w / 2;
             cy = h / 2;
             diagonal = sqrt (w * w + h * h);
             x1 = cx + cos rad * (diagonal / 2);
             y1 = cy + sin rad * (diagonal / 2);
             x0 = cx - cos rad * (diagonal / 2);
             y0 = cy - sin rad * (diagonal / 2)
         in createLinearGradient x0 y0 x1 y1)
      else
        (let cx = real canvasWidth / 2;
             cy = real canvasHeight / 2;
             r = max (real canvasWidth) (real canvasHeight) / 2
         in createRadialGradient cx cy 0 cx cy r))"

text \<open>Steps 3 and 4 together: the gradient that becomes the fill style.\<close>

definition maskGradient :: "GradientSettings \<Rightarrow> nat \<Rightarrow> nat \<Rightarrow> DOMException + CanvasGradient" where
  "maskGradient settings w h = andThen (prepareGradient settings w h) (applyUserStops settings)"

text \<open>The body of the effect behind its guards, steps 1 to 4 and the final reset.\<close>

definition render :: "Bitmap \<Rightarrow> GradientSettings \<Rightarrow> Canvas \<Rightarrow> DOMException + Canvas" where
  "render img settings canvas0 =
     (let canvas1 = setHeight (height img) (setWidth (width img) canvas0);
          canvas2 = clearRect 0 0 (width canvas1) (height canvas1) canvas1;
          canvas3 = drawImage img 0 0 canvas2;
          canvas4 = canvas3\<lparr>globalCompositeOperation := DestinationIn\<rparr>
      in andThen (maskGradient settings (width canvas4) (height canvas4))
           (\<lambda>gradient.
              let canvas5 = canvas4\<lparr>fillStyle := Gradient gradient\<rparr>;
                  canvas6 = fillRect 0 0 (width canvas5) (height canvas5) canvas5
              in Inr (canvas6\<lparr>globalCompositeOperation := SourceOver\<rparr>)))"

text \<open>
  The effect of \<^verbatim>\<open>useEffect(..., [image, settings])\<close> on the canvas the ref holds:
  it returns at once without a canvas, without an image or without a 2D context.
\<close>

definition composite :: "Canvas option \<Rightarrow> Bitmap option \<Rightarrow> GradientSettings \<Rightarrow> DOMException + Canvas option" where
  "composite canvasRef imageProp settings =
     (case canvasRef of
        None \<Rightarrow> Inr None
      | Some canvas \<Rightarrow>
          (case imageProp of
             None \<Rightarrow> Inr (Some canvas)
           | Some img \<Rightarrow>
               if \<not> has2d canvas then Inr (Some canvas)
               else andThen (render img settings canvas) (\<lambda>c. Inr (Some c))))"


subsection \<open>The alpha factor\<close>

text \<open>
  The alpha of the mask at the axis parameter \<open>t\<close>: the colour stops of step 4, put on
  a fresh gradient, read at \<open>t\<close>.
\<close>

definition alphaFactor :: "GradientSettings \<Rightarrow> real \<Rightarrow> real" where
  "alphaFactor settings t =
     (case applyUserStops settings (LinearGradient 0 0 0 0 []) of
        Inl e \<Rightarrow> 0
      | Inr g \<Rightarrow> alpha (colorAt (stops g) t))"

text \<open>The axis parameter of a point of a \<open>w\<close> by \<open>h\<close> canvas under the gradient of step 3.\<close>

definition axisParam :: "GradientSettings \<Rightarrow> nat \<Rightarrow> nat \<Rightarrow> real \<Rightarrow> real \<Rightarrow> real option" where
  "axisParam settings w h px py =
     (case prepareGradient settings w h of
        Inl e \<Rightarrow> None
      | Inr g \<Rightarrow> gradientParam g px py)"

text \<open>The alpha of the mask at a point of a \<open>w\<close> by \<open>h\<close> canvas.\<close>

definition maskAlpha :: "GradientSettings \<Rightarrow> nat \<Rightarrow> nat \<Rightarrow> real \<Rightarrow> real \<Rightarrow> real" where
  "maskAlpha settings w h px py =
     (case maskGradient settings w h of
        Inl e \<Rightarrow> 0
      | Inr g \<Rightarrow> alpha (fillColor (Gradient g) px py))"

text \<open>
  The stored pixel the effect leaves for the image pixel \<open>p\<close> under the mask alpha \<open>f\<close>:
  \<open>p\<close> drawn on the cleared canvas, then the fill under \<^verbatim>\<open>destination-in\<close>.
\<close>

definition faded :: "Pixel \<Rightarrow> real \<Rightarrow> Pixel" where
  "faded p f =
     compose DestinationIn \<lparr>red = 0, green = 0, blue = 0, alpha = f\<rparr>
       (compose SourceOver (toColor p) transparentBlack)"

subsection \<open>Inputs of the application\<close>

text \<open>The settings \<^verbatim>\<open>App\<close> starts with and resets to.\<close>

definition initialSettings :: GradientSettings where
  "initialSettings = \<lparr>angle = 180, startPoint = 20, endPoint = 80, invert = False, type = linear\<rparr>"

text \<open>A canvas element as the page creates it: 300 by 150 transparent pixels.\<close>

definition freshCanvas :: Canvas where
  "freshCanvas = \<lparr>width = 300, height = 150, pixel = (\<lambda>x y. transparentBlack), has2d = True,
     globalCompositeOperation = SourceOver, fillStyle = SolidColor (rgba 0 0 0 1)\<rparr>"

text \<open>An image of \<open>w\<close> by \<open>h\<close> pixels of one colour.\<close>

definition plainImage :: "nat \<Rightarrow> nat \<Rightarrow> Pixel \<Rightarrow> Bitmap" where
  "plainImage w h p = \<lparr>width = w, height = h, pixel = (\<lambda>x y. p)\<rparr>"

section \<open>Properties\<close>

subsection \<open>The download name\<close>

lemma split_not_Nil: "split sep s \<noteq> []"
  by (induction s) (auto split: list.splits)

lemma split_without_sep: "sep \<notin> set s \<Longrightarrow> split sep s = [s]"
  by (induction s) auto

lemma split_last_sep: "sep \<notin> set ext \<Longrightarrow> split sep (b @ sep # ext) = split sep b @ [ext]"
proof (induction b)
  case Nil
  then show ?case by (simp add: split_without_sep)
next
  case (Cons c b)
  then show ?case using split_not_Nil [of sep b]
    by (cases "split sep b") auto
qed

lemma join_split: "join sep (split sep s) = s"
proof (induction s)
  case Nil
  show ?case by simp
next
  case (Cons c s)
  show ?case
  proof (cases "split sep s")
    case Nil
    then show ?thesis using split_not_Nil [of sep s] by simp
  next
    case (Cons p ps)
    with Cons.IH show ?thesis by (cases ps) auto
  qed
qed

text \<open>
  Claim C9. The export name is the original name without the part behind its last dot,
  when it has a dot, followed by \<^verbatim>\<open>-fade.png\<close>: a name without a dot is kept whole,
  a name \<open>base.ext\<close> with no dot in \<open>ext\<close> gives \<open>base\<close>, and every derived name
  ends in \<^verbatim>\<open>-fade.png\<close>.
\<close>

theorem downloadName_spec:
  "(CHR ''.'' \<notin> set name \<longrightarrow> downloadName name = name @ ''-fade.png'') \<and>
   (CHR ''.'' \<notin> set ext \<longrightarrow> downloadName (base @ CHR ''.'' # ext) = base @ ''-fade.png'') \<and>
   suffix ''-fade.png'' (downloadName name)"
proof (intro conjI impI)
  assume "CHR ''.'' \<notin> set name"
  then show "downloadName name = name @ ''-fade.png''"
    by (simp add: downloadName_def split_without_sep)
next
  assume "CHR ''.'' \<notin> set ext"
  then have "split (CHR ''.'') (base @ CHR ''.'' # ext) = split (CHR ''.'') base @ [ext]"
    by (rule split_last_sep)
  moreover have "length (split (CHR ''.'') base) > 0"
    using split_not_Nil [of "CHR ''.''" base] by simp
  ultimately show "downloadName (base @ CHR ''.'' # ext) = base @ ''-fade.png''"
    by (simp add: downloadName_def Let_def join_split)
next
  show "suffix ''-fade.png'' (downloadName name)"
    unfolding downloadName_def Let_def by (rule suffix_appendI) simp
qed

theorem downloadName_spec_witness:
  "downloadName ''photo'' = ''photo-fade.png'' \<and>
   downloadName ''my.holiday.jpeg'' = ''my.holiday-fade.png'' \<and>
   suffix ''-fade.png'' (downloadName ''photo'')"
proof -
  note t = downloadName_spec [of "''photo''" "''jpeg''" "''my.holiday''"]
  have a: "downloadName ''photo'' = ''photo-fade.png''" using t by simp
  have b: "downloadName ''my.holiday.jpeg'' = ''my.holiday-fade.png''" using t by simp
  have c: "suffix ''-fade.png'' (downloadName ''photo'')" using t by blast
  from a b c show ?thesis by blast
qed

subsection \<open>The colour stops\<close>

lemma safe_bounds:
  "0 \<le> safeStart s" "safeStart s \<le> 1" "0 \<le> safeEnd s" "safeEnd s \<le> 1"
  by (simp_all add: safeStart_def safeEnd_def)

lemma addColorStop_ok:
  "0 \<le> p \<Longrightarrow> p \<le> 1 \<Longrightarrow> addColorStop p c g = Inr (withStops g (insertStop (p, c) (stops g)))"
  by (simp add: addColorStop_def)

lemma stops_withStops [simp]: "stops (withStops g ss) = ss"
  by (cases g) simp_all

lemma withStops_withStops [simp]: "withStops (withStops g ss) ss' = withStops g ss'"
  by (cases g) simp_all

lemma insertStop_behind:
  "\<forall>x \<in> set xs. fst x \<le> fst s \<Longrightarrow> insertStop s xs = xs @ [s]"
  by (induction xs) auto

text \<open>The stops of step 4 on a gradient that has none yet.\<close>

lemma applyUserStops_fresh:
  assumes "stops g = []"
  shows "applyUserStops s g =
     Inr (withStops g
       [(0, rgba 0 0 0 (if invert s then 0 else 1)),
        (min (safeStart s) (safeEnd s), rgba 0 0 0 (if invert s then 0 else 1)),
        (max (safeStart s) (safeEnd s), rgba 0 0 0 (if invert s then 1 else 0)),
        (1, rgba 0 0 0 (if invert s then 1 else 0))])"
proof -
  define lo where "lo = min (safeStart s) (safeEnd s)"
  define hi where "hi = max (safeStart s) (safeEnd s)"
  have b: "0 \<le> lo" "lo \<le> 1" "0 \<le> hi" "hi \<le> 1" "lo \<le> hi"
    using safe_bounds [of s] by (auto simp: lo_def hi_def)
  have "applyUserStops s g =
     Inr (withStops g
       [(0, rgba 0 0 0 (if invert s then 0 else 1)),
        (lo, rgba 0 0 0 (if invert s then 0 else 1)),
        (hi, rgba 0 0 0 (if invert s then 1 else 0)),
        (1, rgba 0 0 0 (if invert s then 1 else 0))])"
    unfolding applyUserStops_def lo_def [symmetric] hi_def [symmetric]
    using assms b
    by (simp add: andThen_def addColorStop_ok insertStop_behind)
  then show ?thesis by (simp add: lo_def hi_def)
qed

lemma applyUserStops_total: "\<exists>g'. applyUserStops s g = Inr g'"
proof -
  let ?lo = "min (safeStart s) (safeEnd s)" and ?hi = "max (safeStart s) (safeEnd s)"
  have lo: "0 \<le> ?lo" "?lo \<le> 1" and hi: "0 \<le> ?hi" "?hi \<le> 1"
    using safe_bounds [of s] by auto
  show ?thesis
    using lo hi by (simp add: applyUserStops_def andThen_def addColorStop_ok)
qed

text \<open>
  Claim C10. For every start and end point the four offsets handed to
  \<^verbatim>\<open>addColorStop\<close> are \<open>0\<close>, the smaller and the larger of the two clamped values,
  and \<open>1\<close>: they lie in the unit interval, they do not decrease, no call throws, and on
  a fresh gradient the stops end up in call order.
\<close>

theorem stop_offsets_safe:
  "sorted (stopOffsets s) \<and> set (stopOffsets s) \<subseteq> {0..1} \<and>
   \<not> isl (applyUserStops s g) \<and>
   (stops g = [] \<longrightarrow> map fst (stops (projr (applyUserStops s g))) = stopOffsets s)"
proof -
  have "sorted (stopOffsets s)" "set (stopOffsets s) \<subseteq> {0..1}"
    using safe_bounds [of s] by (auto simp: stopOffsets_def)
  moreover have "\<not> isl (applyUserStops s g)"
    using applyUserStops_total [of s g] by auto
  moreover have "stops g = [] \<longrightarrow> map fst (stops (projr (applyUserStops s g))) = stopOffsets s"
    by (simp add: applyUserStops_fresh stopOffsets_def)
  ultimately show ?thesis by blast
qed

theorem stop_offsets_safe_witness:
  "stopOffsets \<lparr>angle = 180, startPoint = 250, endPoint = -30, invert = False, type = linear\<rparr>
     = [0, 0, 1, 1] \<and>
   \<not> isl (applyUserStops
       \<lparr>angle = 180, startPoint = 250, endPoint = -30, invert = False, type = linear\<rparr>
       (LinearGradient 0 0 0 1 [])) \<and>
   map fst (stops (projr (applyUserStops
       \<lparr>angle = 180, startPoint = 250, endPoint = -30, invert = False, type = linear\<rparr>
       (LinearGradient 0 0 0 1 [])))) = [0, 0, 1, 1]"
proof -
  let ?s = "\<lparr>angle = 180, startPoint = 250, endPoint = -30, invert = False, type = linear\<rparr>"
  have e: "stopOffsets ?s = [0, 0, 1, 1]"
    by (simp add: stopOffsets_def safeStart_def safeEnd_def)
  have h: "stops (LinearGradient 0 0 0 1 []) = []" by simp
  from stop_offsets_safe [of ?s "LinearGradient 0 0 0 1 []"] h
  show ?thesis unfolding e by blast
qed

subsection \<open>Compositing\<close>

lemma quantise_unat: "quantise (real (unat (w :: 8 word))) = w"
proof -
  have "unat w < 2 ^ LENGTH(8)" by (rule unsigned_less)
  then have "unat w \<le> 255" by simp
  then have "real (unat w) \<le> 255" by (simp del: of_nat_unat)
  moreover have "0 \<le> real (unat w)" by (simp del: of_nat_unat)
  ultimately have "max 0 (min 255 (real (unat w))) = real (unat w)"
    by (simp del: of_nat_unat)
  then have "quantise (real (unat w)) = word_of_nat (nat (round (real (unat w))))"
    by (simp only: quantise_def)
  also have "\<dots> = word_of_nat (unat w)" by (simp only: round_of_nat nat_int)
  also have "\<dots> = w" by simp
  finally show ?thesis .
qed

lemma quantise_unsigned [simp]: "quantise (unsigned (w :: 8 word)) = w"
  using quantise_unat [of w] by simp

lemma quantise_zero [simp]: "quantise 0 = 0"
  by (simp add: quantise_def)

lemma faded_alpha [simp]: "pxA (faded p f) = quantise (real (unat (pxA p)) * f)"
  by (simp add: faded_def toColor_def transparentBlack_def)

lemma quantise_full [simp]: "quantise 255 = 255"
  by (simp add: quantise_def)



lemma alphaFactor_eq:
  "alphaFactor s t =
     (if t \<le> min (safeStart s) (safeEnd s) then (if invert s then 0 else 1)
      else if t < max (safeStart s) (safeEnd s) then
        (if invert s then 0 else 1) + ((if invert s then 1 else 0) - (if invert s then 0 else 1)) *
          ((t - min (safeStart s) (safeEnd s)) / (max (safeStart s) (safeEnd s) - min (safeStart s) (safeEnd s)))
      else (if invert s then 1 else 0))"
proof -
  define lo where "lo = min (safeStart s) (safeEnd s)"
  define hi where "hi = max (safeStart s) (safeEnd s)"
  have b: "0 \<le> lo" "lo \<le> 1" "0 \<le> hi" "hi \<le> 1" "lo \<le> hi"
    using safe_bounds [of s] by (auto simp: lo_def hi_def)
  have "alphaFactor s t =
     (if t \<le> lo then (if invert s then 0 else 1)
      else if t < hi then
        (if invert s then 0 else 1) + ((if invert s then 1 else 0) - (if invert s then 0 else 1)) *
          ((t - lo) / (hi - lo))
      else (if invert s then 1 else 0))"
    using b
    by (simp add: alphaFactor_def applyUserStops_fresh lo_def [symmetric] hi_def [symmetric]
        rgba_def mix_def)
  then show ?thesis by (simp only: lo_def hi_def)
qed

lemma prepareGradient_total: "\<exists>g. prepareGradient s w h = Inr g \<and> stops g = []"
  by (simp add: prepareGradient_def Let_def createLinearGradient_def createRadialGradient_def)

lemma maskGradient_total: "\<exists>g. maskGradient s w h = Inr g"
proof -
  obtain g0 where "prepareGradient s w h = Inr g0"
    using prepareGradient_total by blast
  moreover obtain g where "applyUserStops s g0 = Inr g"
    using applyUserStops_total by blast
  ultimately show ?thesis by (simp add: maskGradient_def andThen_def)
qed

lemma render_ok:
  "\<exists>c'. render img s c0 = Inr c' \<and> width c' = width img \<and> height c' = height img \<and>
     has2d c' = has2d c0 \<and>
     (\<forall>x y. pixel c' x y =
        (if x < width img \<and> y < height img
         then faded (pixel img x y)
                (maskAlpha s (width img) (height img) (real x + 1 / 2) (real y + 1 / 2))
         else transparentBlack))"
proof -
  obtain g where g: "maskGradient s (width img) (height img) = Inr g"
    using maskGradient_total by blast
  show ?thesis
    by (simp add: render_def Let_def g andThen_def maskAlpha_def setWidth_def setHeight_def
        resetCanvas_def clearRect_def drawImage_def fillRect_def touched_def faded_def)
qed

lemma composite_ok:
  assumes "has2d c"
  shows "\<exists>c'. composite (Some c) (Some img) s = Inr (Some c') \<and>
     width c' = width img \<and> height c' = height img \<and>
     (\<forall>x y. pixel c' x y =
        (if x < width img \<and> y < height img
         then faded (pixel img x y)
                (maskAlpha s (width img) (height img) (real x + 1 / 2) (real y + 1 / 2))
         else transparentBlack))"
proof -
  obtain c' where "render img s c = Inr c'" "width c' = width img" "height c' = height img"
    "\<forall>x y. pixel c' x y =
        (if x < width img \<and> y < height img
         then faded (pixel img x y)
                (maskAlpha s (width img) (height img) (real x + 1 / 2) (real y + 1 / 2))
         else transparentBlack)"
    using render_ok [of img s c] by blast
  then show ?thesis using assms by (simp add: composite_def andThen_def)
qed

subsection \<open>The gradient axis\<close>

lemma gradientParam_withStops [simp]: "gradientParam (withStops g ss) px py = gradientParam g px py"
  by (cases g) simp_all

lemma maskAlpha_eq:
  "maskAlpha s w h px py =
     (case axisParam s w h px py of None \<Rightarrow> 0 | Some t \<Rightarrow> alphaFactor s t)"
proof -
  obtain g0 where g0: "prepareGradient s w h = Inr g0" "stops g0 = []"
    using prepareGradient_total by blast
  have fresh: "stops (LinearGradient 0 0 0 0 []) = []" by simp
  show ?thesis
    by (simp add: maskAlpha_def maskGradient_def andThen_def axisParam_def alphaFactor_def g0
        applyUserStops_fresh [OF g0(2)] applyUserStops_fresh [OF fresh] rgba_def
        split: option.split)
qed

lemma linear_param:
  fixes c sn d :: real
  assumes unit: "c * c + sn * sn = 1" and d: "0 < d"
  shows "gradientParam
           (LinearGradient (cx - c * (d / 2)) (cy - sn * (d / 2)) (cx + c * (d / 2))
              (cy + sn * (d / 2)) ss) px py
         = Some (1 / 2 + ((px - cx) * c + (py - cy) * sn) / d)"
proof -
  let ?x0 = "cx - c * (d / 2)" and ?y0 = "cy - sn * (d / 2)"
  let ?x1 = "cx + c * (d / 2)" and ?y1 = "cy + sn * (d / 2)"
  have dx: "?x1 - ?x0 = c * d" and dy: "?y1 - ?y0 = sn * d" by simp_all
  have "\<not> (?x0 = ?x1 \<and> ?y0 = ?y1)"
  proof
    assume "?x0 = ?x1 \<and> ?y0 = ?y1"
    then have "c * d = 0" "sn * d = 0" using dx dy by simp_all
    with d have "c = 0" "sn = 0" by simp_all
    with unit show False by simp
  qed
  moreover have den: "(?x1 - ?x0) * (?x1 - ?x0) + (?y1 - ?y0) * (?y1 - ?y0) = d * d"
  proof -
    have "(?x1 - ?x0) * (?x1 - ?x0) + (?y1 - ?y0) * (?y1 - ?y0) = (c * c + sn * sn) * (d * d)"
      unfolding dx dy by (simp add: algebra_simps)
    then show ?thesis using unit by simp
  qed
  moreover have num: "(px - ?x0) * (?x1 - ?x0) + (py - ?y0) * (?y1 - ?y0)
      = ((px - cx) * c + (py - cy) * sn) * d + d * d / 2"
  proof -
    have "(px - ?x0) * (?x1 - ?x0) + (py - ?y0) * (?y1 - ?y0)
        = ((px - cx) * c + (py - cy) * sn) * d + (c * c + sn * sn) * (d * d / 2)"
      unfolding dx dy by (simp add: algebra_simps)
    then show ?thesis using unit by simp
  qed
  moreover have "(((px - cx) * c + (py - cy) * sn) * d + d * d / 2) / (d * d)
      = 1 / 2 + ((px - cx) * c + (py - cy) * sn) / d"
    using d by (simp add: field_simps)
  ultimately show ?thesis by (simp only: gradientParam.simps if_False)
qed

lemma diagonal_pos:
  assumes "0 < w \<or> 0 < h"
  shows "0 < sqrt (real w * real w + real h * real h)"
proof -
  have "0 < real w * real w + real h * real h"
    using assms by (auto intro: add_pos_nonneg add_nonneg_pos)
  then show ?thesis by simp
qed

lemma axisParam_linear:
  assumes "type s = linear" and "0 < w \<or> 0 < h"
  shows "axisParam s w h px py =
     Some (1 / 2 + ((px - real w / 2) * cos ((angle s - 90) * (pi / 180)) +
                    (py - real h / 2) * sin ((angle s - 90) * (pi / 180))) /
                   sqrt (real w * real w + real h * real h))"
proof -
  let ?rad = "(angle s - 90) * (pi / 180)"
  let ?d = "sqrt (real w * real w + real h * real h)"
  have "gradientParam
          (LinearGradient (real w / 2 - cos ?rad * (?d / 2)) (real h / 2 - sin ?rad * (?d / 2))
             (real w / 2 + cos ?rad * (?d / 2)) (real h / 2 + sin ?rad * (?d / 2)) []) px py
        = Some (1 / 2 + ((px - real w / 2) * cos ?rad + (py - real h / 2) * sin ?rad) / ?d)"
    by (rule linear_param [OF sin_cos_squared_add3 diagonal_pos [OF assms(2)]])
  then show ?thesis
    using assms(1)
    by (simp add: axisParam_def prepareGradient_def Let_def createLinearGradient_def
        del: gradientParam.simps)
qed

lemma axisParam_radial:
  assumes "type s = radial" and "0 < w \<or> 0 < h"
  shows "axisParam s w h px py =
     Some (sqrt ((px - real w / 2) * (px - real w / 2) + (py - real h / 2) * (py - real h / 2)) /
           (max (real w) (real h) / 2))"
proof -
  have "0 < max (real w) (real h)" using assms(2) by auto
  then show ?thesis
    using assms(1)
    by (simp add: axisParam_def prepareGradient_def Let_def createRadialGradient_def)
qed

subsection \<open>The four-stop profile\<close>

text \<open>
  Claim C1. With \<open>lo\<close> and \<open>hi\<close> the smaller and the larger of the clamped start and end
  and \<open>lo\<close> below \<open>hi\<close>, the alpha factor at the axis parameter \<open>t\<close> is, not inverted, 1
  up to \<open>lo\<close>, the line from 1 to 0 between \<open>lo\<close> and \<open>hi\<close>, and 0 from \<open>hi\<close> on;
  inverted, 0 up to \<open>lo\<close>, the line from 0 to 1, and 1 from \<open>hi\<close> on. The effect
  multiplies the alpha of a pixel whose centre has the axis parameter \<open>t\<close> by this factor.
  Equal bounds are the step of the next subsection.
\<close>

theorem alphaFactor_four_stop:
  "(min (safeStart s) (safeEnd s) < max (safeStart s) (safeEnd s) \<longrightarrow>
      (\<not> invert s \<longrightarrow>
         (t \<le> min (safeStart s) (safeEnd s) \<longrightarrow> alphaFactor s t = 1) \<and>
         (min (safeStart s) (safeEnd s) < t \<and> t < max (safeStart s) (safeEnd s) \<longrightarrow>
            alphaFactor s t = 1 - (t - min (safeStart s) (safeEnd s)) /
                                  (max (safeStart s) (safeEnd s) - min (safeStart s) (safeEnd s))) \<and>
         (max (safeStart s) (safeEnd s) \<le> t \<longrightarrow> alphaFactor s t = 0)) \<and>
      (invert s \<longrightarrow>
         (t \<le> min (safeStart s) (safeEnd s) \<longrightarrow> alphaFactor s t = 0) \<and>
         (min (safeStart s) (safeEnd s) < t \<and> t < max (safeStart s) (safeEnd s) \<longrightarrow>
            alphaFactor s t = (t - min (safeStart s) (safeEnd s)) /
                              (max (safeStart s) (safeEnd s) - min (safeStart s) (safeEnd s))) \<and>
         (max (safeStart s) (safeEnd s) \<le> t \<longrightarrow> alphaFactor s t = 1))) \<and>
   (has2d c \<and> x < width img \<and> y < height img \<and>
    axisParam s (width img) (height img) (real x + 1 / 2) (real y + 1 / 2) = Some t \<longrightarrow>
      (\<exists>c'. composite (Some c) (Some img) s = Inr (Some c') \<and>
         pxA (pixel c' x y) = quantise (real (unat (pxA (pixel img x y))) * alphaFactor s t)))"
proof -
  define lo where "lo = min (safeStart s) (safeEnd s)"
  define hi where "hi = max (safeStart s) (safeEnd s)"
  have f: "alphaFactor s t =
     (if t \<le> lo then (if invert s then 0 else 1)
      else if t < hi then
        (if invert s then 0 else 1) + ((if invert s then 1 else 0) - (if invert s then 0 else 1)) *
          ((t - lo) / (hi - lo))
      else (if invert s then 1 else 0))"
    unfolding lo_def hi_def by (rule alphaFactor_eq)
  have profile: "lo < hi \<longrightarrow>
      (\<not> invert s \<longrightarrow>
         (t \<le> lo \<longrightarrow> alphaFactor s t = 1) \<and>
         (lo < t \<and> t < hi \<longrightarrow> alphaFactor s t = 1 - (t - lo) / (hi - lo)) \<and>
         (hi \<le> t \<longrightarrow> alphaFactor s t = 0)) \<and>
      (invert s \<longrightarrow>
         (t \<le> lo \<longrightarrow> alphaFactor s t = 0) \<and>
         (lo < t \<and> t < hi \<longrightarrow> alphaFactor s t = (t - lo) / (hi - lo)) \<and>
         (hi \<le> t \<longrightarrow> alphaFactor s t = 1))"
    unfolding f by (auto simp: field_simps)
  have px: "has2d c \<and> x < width img \<and> y < height img \<and>
    axisParam s (width img) (height img) (real x + 1 / 2) (real y + 1 / 2) = Some t \<longrightarrow>
      (\<exists>c'. composite (Some c) (Some img) s = Inr (Some c') \<and>
         pxA (pixel c' x y) = quantise (real (unat (pxA (pixel img x y))) * alphaFactor s t))"
  proof
    assume a: "has2d c \<and> x < width img \<and> y < height img \<and>
      axisParam s (width img) (height img) (real x + 1 / 2) (real y + 1 / 2) = Some t"
    then obtain c' where c': "composite (Some c) (Some img) s = Inr (Some c')"
      "\<forall>x y. pixel c' x y =
        (if x < width img \<and> y < height img
         then faded (pixel img x y)
                (maskAlpha s (width img) (height img) (real x + 1 / 2) (real y + 1 / 2))
         else transparentBlack)"
      using composite_ok [of c img s] by blast
    from c'(2) a have "pxA (pixel c' x y) =
        quantise (real (unat (pxA (pixel img x y))) * alphaFactor s t)"
      by (simp add: maskAlpha_eq)
    with c'(1) show "\<exists>c'. composite (Some c) (Some img) s = Inr (Some c') \<and>
         pxA (pixel c' x y) = quantise (real (unat (pxA (pixel img x y))) * alphaFactor s t)"
      by blast
  qed
  from profile px show ?thesis unfolding lo_def hi_def by blast
qed

theorem alphaFactor_four_stop_witness:
  "alphaFactor initialSettings (1 / 5) = 1 \<and>
   alphaFactor initialSettings (1 / 2) = 1 / 2 \<and>
   alphaFactor initialSettings (4 / 5) = 0 \<and>
   alphaFactor (initialSettings\<lparr>invert := True\<rparr>) (1 / 5) = 0 \<and>
   alphaFactor (initialSettings\<lparr>invert := True\<rparr>) (1 / 2) = 1 / 2 \<and>
   alphaFactor (initialSettings\<lparr>invert := True\<rparr>) (4 / 5) = 1 \<and>
   (\<exists>c'. composite (Some freshCanvas)
           (Some (plainImage 1 1 \<lparr>pxR = 200, pxG = 100, pxB = 50, pxA = 255\<rparr>)) initialSettings
         = Inr (Some c') \<and>
        pxA (pixel c' 0 0) = quantise (255 * alphaFactor initialSettings (1 / 2)))"
proof -
  let ?s = initialSettings and ?i = "initialSettings\<lparr>invert := True\<rparr>"
  let ?img = "plainImage 1 1 \<lparr>pxR = 200, pxG = 100, pxB = 50, pxA = 255\<rparr>"
  have lo: "min (safeStart ?s) (safeEnd ?s) = 1 / 5" "min (safeStart ?i) (safeEnd ?i) = 1 / 5"
    and hi: "max (safeStart ?s) (safeEnd ?s) = 4 / 5" "max (safeStart ?i) (safeEnd ?i) = 4 / 5"
    and inv: "\<not> invert ?s" "invert ?i"
    by (simp_all add: initialSettings_def safeStart_def safeEnd_def)
  have a: "alphaFactor ?s (1 / 5) = 1"
    using alphaFactor_four_stop [of ?s "1 / 5"] lo hi inv by simp
  have b: "alphaFactor ?s (1 / 2) = 1 / 2"
    using alphaFactor_four_stop [of ?s "1 / 2"] lo hi inv by simp
  have c: "alphaFactor ?s (4 / 5) = 0"
    using alphaFactor_four_stop [of ?s "4 / 5"] lo hi inv by simp
  have d: "alphaFactor ?i (1 / 5) = 0"
    using alphaFactor_four_stop [of ?i "1 / 5"] lo hi inv by simp
  have e: "alphaFactor ?i (1 / 2) = 1 / 2"
    using alphaFactor_four_stop [of ?i "1 / 2"] lo hi inv by simp
  have f: "alphaFactor ?i (4 / 5) = 1"
    using alphaFactor_four_stop [of ?i "4 / 5"] lo hi inv by simp
  have ax: "axisParam ?s (width ?img) (height ?img) (real 0 + 1 / 2) (real 0 + 1 / 2) = Some (1 / 2)"
    by (simp add: axisParam_linear initialSettings_def plainImage_def)
  have g: "\<exists>c'. composite (Some freshCanvas) (Some ?img) ?s = Inr (Some c') \<and>
        pxA (pixel c' 0 0) = quantise (255 * alphaFactor ?s (1 / 2))"
    using alphaFactor_four_stop [of ?s "1 / 2" freshCanvas 0 ?img 0] ax
    by (simp add: freshCanvas_def plainImage_def)
  from a b c d e f g show ?thesis by blast
qed

subsection \<open>Equal bounds\<close>

text \<open>
  Claim C7. When the two clamped bounds are equal the alpha factor is a step at that
  point: the first plateau value up to it, the second behind it, and no value in between.
  The interpolation quotient of \<^const>\<open>colorAt\<close> is taken only strictly between two
  different offsets, so none is taken here.
\<close>

theorem alphaFactor_hard_step:
  assumes "safeStart s = safeEnd s"
  shows "alphaFactor s t =
     (if t \<le> safeStart s then (if invert s then 0 else 1) else (if invert s then 1 else 0))"
  using assms by (simp add: alphaFactor_eq)

theorem alphaFactor_hard_step_witness:
  "safeStart (initialSettings\<lparr>startPoint := 50, endPoint := 50\<rparr>) = 1 / 2 \<and>
   safeEnd (initialSettings\<lparr>startPoint := 50, endPoint := 50\<rparr>) = 1 / 2 \<and>
   alphaFactor (initialSettings\<lparr>startPoint := 50, endPoint := 50\<rparr>) (1 / 2) = 1 \<and>
   alphaFactor (initialSettings\<lparr>startPoint := 50, endPoint := 50\<rparr>) (501 / 1000) = 0"
proof -
  let ?s = "initialSettings\<lparr>startPoint := 50, endPoint := 50\<rparr>"
  have s: "safeStart ?s = 1 / 2" "safeEnd ?s = 1 / 2" "\<not> invert ?s"
    by (simp_all add: initialSettings_def safeStart_def safeEnd_def)
  then have h: "safeStart ?s = safeEnd ?s" by simp
  from alphaFactor_hard_step [OF h, of "1 / 2"] alphaFactor_hard_step [OF h, of "501 / 1000"] s
  show ?thesis by simp
qed

subsection \<open>The fade pair\<close>

lemma applyUserStops_cong:
  assumes "invert s = invert s'"
    and "min (safeStart s) (safeEnd s) = min (safeStart s') (safeEnd s')"
    and "max (safeStart s) (safeEnd s) = max (safeStart s') (safeEnd s')"
  shows "applyUserStops s = applyUserStops s'"
  by (rule ext) (simp only: applyUserStops_def assms)

lemma composite_cong:
  assumes "type s = type s'" and "angle s = angle s'" and "invert s = invert s'"
    and "min (safeStart s) (safeEnd s) = min (safeStart s') (safeEnd s')"
    and "max (safeStart s) (safeEnd s) = max (safeStart s') (safeEnd s')"
  shows "composite cr im s = composite cr im s'"
proof -
  have "prepareGradient s = prepareGradient s'"
    by (intro ext) (simp add: prepareGradient_def assms(1,2))
  then have "maskGradient s = maskGradient s'"
    by (intro ext) (simp add: maskGradient_def applyUserStops_cong [OF assms(3-5)])
  then have r: "render img s = render img s'" for img
    by (intro ext) (simp add: render_def)
  show ?thesis by (simp add: composite_def r split: option.split)
qed

text \<open>
  Claim C4. Swapping start and end point gives the same result, and so does clamping each
  of them to \<open>[0, 100]\<close> beforehand: the pair acts as an unordered interval of clamped
  values.
\<close>

theorem composite_fade_pair_unordered:
  "composite cr im (s\<lparr>startPoint := a, endPoint := b\<rparr>) =
     composite cr im (s\<lparr>startPoint := b, endPoint := a\<rparr>) \<and>
   composite cr im (s\<lparr>startPoint := a, endPoint := b\<rparr>) =
     composite cr im (s\<lparr>startPoint := max 0 (min 100 a), endPoint := max 0 (min 100 b)\<rparr>)"
proof
  show "composite cr im (s\<lparr>startPoint := a, endPoint := b\<rparr>) =
     composite cr im (s\<lparr>startPoint := b, endPoint := a\<rparr>)"
    by (rule composite_cong) (simp_all add: safeStart_def safeEnd_def min.commute max.commute)
next
  have "max 0 (min 1 (max 0 (min 100 v) / 100)) = max 0 (min 1 (v / 100))" for v :: real
    by (simp add: max_def min_def)
  then show "composite cr im (s\<lparr>startPoint := a, endPoint := b\<rparr>) =
     composite cr im (s\<lparr>startPoint := max 0 (min 100 a), endPoint := max 0 (min 100 b)\<rparr>)"
    by (intro composite_cong) (simp_all add: safeStart_def safeEnd_def)
qed

theorem composite_fade_pair_unordered_witness:
  "composite (Some freshCanvas) (Some (plainImage 2 2 \<lparr>pxR = 1, pxG = 2, pxB = 3, pxA = 255\<rparr>))
     (initialSettings\<lparr>startPoint := 130, endPoint := 40\<rparr>) =
   composite (Some freshCanvas) (Some (plainImage 2 2 \<lparr>pxR = 1, pxG = 2, pxB = 3, pxA = 255\<rparr>))
     (initialSettings\<lparr>startPoint := 40, endPoint := 130\<rparr>)"
  using composite_fade_pair_unordered
    [where cr = "Some freshCanvas"
       and im = "Some (plainImage 2 2 \<lparr>pxR = 1, pxG = 2, pxB = 3, pxA = 255\<rparr>)"
       and s = initialSettings and a = 130 and b = 40]
  by blast

subsection \<open>Failure modes\<close>

text \<open>
  Claim C5 as stated fails on an image without area: the effect has no check of the
  dimensions and ends normally with a canvas of width 0.
\<close>

theorem zero_area_counterexample:
  "\<not> isl (composite (Some freshCanvas) (Some (plainImage 0 0 transparentBlack)) initialSettings) \<and>
   width (the (projr (composite (Some freshCanvas) (Some (plainImage 0 0 transparentBlack))
     initialSettings))) = 0"
proof -
  have h: "has2d freshCanvas" by (simp add: freshCanvas_def)
  from composite_ok [OF h, of "plainImage 0 0 transparentBlack" initialSettings]
  show ?thesis by (auto simp: plainImage_def)
qed

lemma composite_no_exception: "\<not> isl (composite cr im s)"
proof -
  have "\<not> isl (andThen (render img s c) (\<lambda>c. Inr (Some c)))" for img c
    using render_ok [of img s c] by (auto simp: andThen_def)
  then show ?thesis
    by (simp add: composite_def split: option.split)
qed

text \<open>
  Claim C5, amended. The effect never throws, whatever the canvas, the image and the
  settings are: an image without area is not rejected, and out-of-range settings are clamped.
  On a canvas with a 2D context it ends with a canvas of the image's size.
\<close>

theorem composite_never_rejects:
  "\<not> isl (composite cr im s) \<and>
   (has2d c \<longrightarrow>
      (\<exists>c'. composite (Some c) (Some img) s = Inr (Some c') \<and>
         width c' = width img \<and> height c' = height img))"
proof -
  have "\<exists>c'. composite (Some c) (Some img) s = Inr (Some c') \<and>
         width c' = width img \<and> height c' = height img" if "has2d c"
    using composite_ok [OF that, of img s] by blast
  then show ?thesis using composite_no_exception by blast
qed

theorem composite_never_rejects_witness:
  "\<not> isl (composite (Some freshCanvas) (Some (plainImage 0 7 transparentBlack))
       (initialSettings\<lparr>angle := 1000, startPoint := - 40, endPoint := 250\<rparr>)) \<and>
   (\<exists>c'. composite (Some freshCanvas) (Some (plainImage 0 7 transparentBlack))
       (initialSettings\<lparr>angle := 1000, startPoint := - 40, endPoint := 250\<rparr>) = Inr (Some c') \<and>
      width c' = 0 \<and> height c' = 7)"
proof -
  have h: "has2d freshCanvas" by (simp add: freshCanvas_def)
  from composite_never_rejects [of "Some freshCanvas" "Some (plainImage 0 7 transparentBlack)"
      "initialSettings\<lparr>angle := 1000, startPoint := - 40, endPoint := 250\<rparr>" freshCanvas
      "plainImage 0 7 transparentBlack"] h
  show ?thesis by (auto simp: plainImage_def)
qed

subsection \<open>Inversion\<close>

lemma safe_invert [simp]:
  "safeStart (s\<lparr>invert := b\<rparr>) = safeStart s" "safeEnd (s\<lparr>invert := b\<rparr>) = safeEnd s"
  by (simp_all add: safeStart_def safeEnd_def)

lemma alphaFactor_invert:
  "alphaFactor (s\<lparr>invert := True\<rparr>) t = 1 - alphaFactor (s\<lparr>invert := False\<rparr>) t"
proof -
  define lo where "lo = min (safeStart s) (safeEnd s)"
  define hi where "hi = max (safeStart s) (safeEnd s)"
  define k where "k = (t - lo) / (hi - lo)"
  have "alphaFactor (s\<lparr>invert := True\<rparr>) t = (if t \<le> lo then 0 else if t < hi then k else 1)"
    by (simp add: alphaFactor_eq lo_def hi_def k_def)
  moreover have "alphaFactor (s\<lparr>invert := False\<rparr>) t =
      (if t \<le> lo then 1 else if t < hi then 1 + (0 - 1) * k else 0)"
    by (simp add: alphaFactor_eq lo_def hi_def k_def)
  ultimately show ?thesis by simp
qed

lemma axisParam_invert: "axisParam (s\<lparr>invert := b\<rparr>) w h px py = axisParam s w h px py"
  by (simp add: axisParam_def prepareGradient_def)

lemma axisParam_defined:
  assumes "0 < w \<or> 0 < h"
  shows "\<exists>t. axisParam s w h px py = Some t"
proof (cases "type s")
  case linear
  then show ?thesis using axisParam_linear [OF linear assms] by blast
next
  case radial
  then show ?thesis using axisParam_radial [OF radial assms] by blast
qed

lemma maskAlpha_invert:
  assumes "0 < w \<or> 0 < h"
  shows "maskAlpha (s\<lparr>invert := True\<rparr>) w h px py = 1 - maskAlpha (s\<lparr>invert := False\<rparr>) w h px py"
proof -
  obtain t where "axisParam s w h px py = Some t"
    using axisParam_defined [OF assms] by blast
  then show ?thesis
    by (simp add: maskAlpha_eq axisParam_invert alphaFactor_invert)
qed

text \<open>
  Claim C3 as stated fails on a pixel that is not opaque. A single pixel of alpha 100 under
  the radial gradient lies on the first plateau: not inverted it keeps alpha 100, inverted
  it gets alpha 0, and 0 is not 255 - 100.
\<close>

theorem invert_complement_counterexample:
  "pxA (pixel (the (projr (composite (Some freshCanvas)
      (Some (plainImage 1 1 \<lparr>pxR = 200, pxG = 100, pxB = 50, pxA = 100\<rparr>))
      (initialSettings\<lparr>type := radial, invert := True\<rparr>)))) 0 0) = 0 \<and>
   pxA (pixel (the (projr (composite (Some freshCanvas)
      (Some (plainImage 1 1 \<lparr>pxR = 200, pxG = 100, pxB = 50, pxA = 100\<rparr>))
      (initialSettings\<lparr>type := radial, invert := False\<rparr>)))) 0 0) = 100 \<and>
   (0 :: 8 word) \<noteq> 255 - 100"
proof -
  let ?img = "plainImage 1 1 \<lparr>pxR = 200, pxG = 100, pxB = 50, pxA = 100\<rparr>"
  let ?s = "initialSettings\<lparr>type := radial\<rparr>"
  have h: "has2d freshCanvas" by (simp add: freshCanvas_def)
  have ax: "axisParam ?s 1 1 (1 / 2) (1 / 2) = Some 0"
    by (simp add: axisParam_radial initialSettings_def)
  have f: "alphaFactor (?s\<lparr>invert := False\<rparr>) 0 = 1"
    by (simp add: alphaFactor_eq initialSettings_def safeStart_def safeEnd_def)
  have m0: "maskAlpha (?s\<lparr>invert := False\<rparr>) 1 1 (1 / 2) (1 / 2) = 1"
    using ax f by (simp add: maskAlpha_eq axisParam_invert)
  then have m1: "maskAlpha (?s\<lparr>invert := True\<rparr>) 1 1 (1 / 2) (1 / 2) = 0"
    by (simp add: maskAlpha_invert)
  have a: "pxA (pixel (the (projr (composite (Some freshCanvas) (Some ?img)
      (?s\<lparr>invert := True\<rparr>)))) 0 0) = 0"
    using composite_ok [OF h, of ?img "?s\<lparr>invert := True\<rparr>"] m1
    by (auto simp: plainImage_def)
  have b: "pxA (pixel (the (projr (composite (Some freshCanvas) (Some ?img)
      (?s\<lparr>invert := False\<rparr>)))) 0 0) = 100"
    using composite_ok [OF h, of ?img "?s\<lparr>invert := False\<rparr>"] m0
    by (auto simp: plainImage_def quantise_def)
  have c: "(0 :: 8 word) \<noteq> 255 - 100" by simp
  from a b c show ?thesis by simp
qed

text \<open>
  Claim C3, amended. At every pixel of the bitmap the alpha factor with \<open>invert = true\<close>
  is one minus the factor \<open>f\<close> with \<open>invert = false\<close>, everything else equal: the two
  output alphas are the source alpha times \<open>f\<close> and times \<open>1 - f\<close>, each rounded to 8
  bits. They add up to the source alpha up to rounding, not to 255.
\<close>

theorem invert_complement_factor:
  assumes "has2d c" and "x < width img" and "y < height img"
  shows "\<exists>c0 c1 f. composite (Some c) (Some img) (s\<lparr>invert := False\<rparr>) = Inr (Some c0) \<and>
     composite (Some c) (Some img) (s\<lparr>invert := True\<rparr>) = Inr (Some c1) \<and>
     f = maskAlpha (s\<lparr>invert := False\<rparr>) (width img) (height img) (real x + 1 / 2) (real y + 1 / 2) \<and>
     pxA (pixel c0 x y) = quantise (real (unat (pxA (pixel img x y))) * f) \<and>
     pxA (pixel c1 x y) = quantise (real (unat (pxA (pixel img x y))) * (1 - f))"
proof -
  let ?f = "maskAlpha (s\<lparr>invert := False\<rparr>) (width img) (height img) (real x + 1 / 2) (real y + 1 / 2)"
  have pos: "0 < width img \<or> 0 < height img" using assms(2) by simp
  obtain c0 where c0: "composite (Some c) (Some img) (s\<lparr>invert := False\<rparr>) = Inr (Some c0)"
    "\<forall>x y. pixel c0 x y =
        (if x < width img \<and> y < height img
         then faded (pixel img x y)
                (maskAlpha (s\<lparr>invert := False\<rparr>) (width img) (height img) (real x + 1 / 2) (real y + 1 / 2))
         else transparentBlack)"
    using composite_ok [OF assms(1), of img "s\<lparr>invert := False\<rparr>"] by blast
  obtain c1 where c1: "composite (Some c) (Some img) (s\<lparr>invert := True\<rparr>) = Inr (Some c1)"
    "\<forall>x y. pixel c1 x y =
        (if x < width img \<and> y < height img
         then faded (pixel img x y)
                (maskAlpha (s\<lparr>invert := True\<rparr>) (width img) (height img) (real x + 1 / 2) (real y + 1 / 2))
         else transparentBlack)"
    using composite_ok [OF assms(1), of img "s\<lparr>invert := True\<rparr>"] by blast
  have a0: "pxA (pixel c0 x y) = quantise (real (unat (pxA (pixel img x y))) * ?f)"
    using c0(2) assms(2,3) by simp
  have a1: "pxA (pixel c1 x y) = quantise (real (unat (pxA (pixel img x y))) * (1 - ?f))"
    using c1(2) assms(2,3) by (simp add: maskAlpha_invert [OF pos])
  from c0(1) c1(1) a0 a1 show ?thesis by blast
qed

theorem invert_complement_factor_witness:
  "\<exists>c0 c1 f. composite (Some freshCanvas)
        (Some (plainImage 1 1 \<lparr>pxR = 200, pxG = 100, pxB = 50, pxA = 100\<rparr>))
        (initialSettings\<lparr>invert := False\<rparr>) = Inr (Some c0) \<and>
     composite (Some freshCanvas)
        (Some (plainImage 1 1 \<lparr>pxR = 200, pxG = 100, pxB = 50, pxA = 100\<rparr>))
        (initialSettings\<lparr>invert := True\<rparr>) = Inr (Some c1) \<and>
     f = maskAlpha (initialSettings\<lparr>invert := False\<rparr>) 1 1 (1 / 2) (1 / 2) \<and>
     pxA (pixel c0 0 0) = quantise (100 * f) \<and>
     pxA (pixel c1 0 0) = quantise (100 * (1 - f))"
proof -
  have h: "has2d freshCanvas" by (simp add: freshCanvas_def)
  from invert_complement_factor [OF h,
      of 0 "plainImage 1 1 \<lparr>pxR = 200, pxG = 100, pxB = 50, pxA = 100\<rparr>" 0 initialSettings]
  show ?thesis by (simp add: plainImage_def)
qed

subsection \<open>The vertical fade\<close>

lemma height_le_diagonal: "real h \<le> sqrt (real w * real w + real h * real h)"
proof -
  have "sqrt (real h * real h) \<le> sqrt (real w * real w + real h * real h)"
    by (rule real_sqrt_le_mono) simp
  then show ?thesis by simp
qed

lemma height_less_diagonal:
  assumes "0 < w"
  shows "real h < sqrt (real w * real w + real h * real h)"
proof -
  have "real h * real h < real w * real w + real h * real h" using assms by simp
  then have "sqrt (real h * real h) < sqrt (real w * real w + real h * real h)"
    by (rule real_sqrt_less_mono)
  then show ?thesis by simp
qed

lemma axisParam_vertical:
  assumes "type s = linear" and "angle s = 180" and "0 < w \<or> 0 < h"
  shows "axisParam s w h px py =
     Some (1 / 2 + (py - real h / 2) / sqrt (real w * real w + real h * real h))"
proof -
  have "(angle s - 90) * (pi / 180) = pi / 2" using assms(2) by simp
  then show ?thesis using axisParam_linear [OF assms(1,3), of px py] by simp
qed

lemma alphaFactor_full_range:
  assumes "startPoint s = 0" and "endPoint s = 100" and "\<not> invert s" and "0 \<le> t" and "t \<le> 1"
  shows "alphaFactor s t = 1 - t"
proof -
  have "safeStart s = 0" "safeEnd s = 1"
    using assms(1,2) by (simp_all add: safeStart_def safeEnd_def)
  then show ?thesis using assms(3-5) by (simp add: alphaFactor_eq)
qed

lemma maskAlpha_vertical:
  assumes "type s = linear" and "angle s = 180" and "startPoint s = 0" and "endPoint s = 100"
    and "\<not> invert s" and "0 < w \<or> 0 < h" and "0 \<le> py" and "py \<le> real h"
  shows "maskAlpha s w h px py =
     1 / 2 + (real h / 2 - py) / sqrt (real w * real w + real h * real h)"
proof -
  define d where "d = sqrt (real w * real w + real h * real h)"
  have d: "0 < d" "real h \<le> d"
    using diagonal_pos [OF assms(6)] height_le_diagonal [of h w] by (simp_all add: d_def)
  define t where "t = 1 / 2 + (py - real h / 2) / d"
  have "- (d / 2) \<le> py - real h / 2" "py - real h / 2 \<le> d / 2"
    using assms(7,8) d by simp_all
  then have "- (1 / 2) \<le> (py - real h / 2) / d" "(py - real h / 2) / d \<le> 1 / 2"
    using d(1) by (simp_all add: field_simps)
  then have t: "0 \<le> t" "t \<le> 1" unfolding t_def by linarith+
  have "axisParam s w h px py = Some t"
    unfolding t_def d_def by (rule axisParam_vertical [OF assms(1,2,6)])
  then have "maskAlpha s w h px py = 1 - t"
    by (simp add: maskAlpha_eq alphaFactor_full_range [OF assms(3,4,5) t])
  also have "\<dots> = 1 / 2 + (real h / 2 - py) / d"
    by (simp add: t_def diff_divide_distrib)
  finally show ?thesis by (simp only: d_def)
qed

text \<open>
  Claim C6 as stated fails on a wide bitmap. The axis has the length of the diagonal at
  every angle, so on 220 by 21 pixels (diagonal 221) with angle 180, start 0 and end 100
  the factor stays below 0.55 on the top row and above 0.45 on the bottom row: it is
  near one half on both, not near 1 and 0.
\<close>

theorem vertical_fade_counterexample:
  "maskAlpha (initialSettings\<lparr>startPoint := 0, endPoint := 100\<rparr>) 220 21 (1 / 2) (1 / 2) < 11 / 20 \<and>
   9 / 20 < maskAlpha (initialSettings\<lparr>startPoint := 0, endPoint := 100\<rparr>) 220 21 (1 / 2) (41 / 2)"
proof -
  let ?s = "initialSettings\<lparr>startPoint := 0, endPoint := 100\<rparr>"
  have s: "type ?s = linear" "angle ?s = 180" "startPoint ?s = 0" "endPoint ?s = 100" "\<not> invert ?s"
    by (simp_all add: initialSettings_def)
  have pos: "0 < (220 :: nat) \<or> 0 < (21 :: nat)" by simp
  have "sqrt (48841 :: real) = 221" by (rule real_sqrt_unique) simp_all
  then have d: "sqrt (real 220 * real 220 + real 21 * real 21) = 221" by simp
  have "maskAlpha ?s 220 21 (1 / 2) (1 / 2) = 1 / 2 + (real 21 / 2 - 1 / 2) / 221"
    using maskAlpha_vertical [OF s pos, of "1 / 2" "1 / 2"] d by simp
  moreover have "maskAlpha ?s 220 21 (1 / 2) (41 / 2) = 1 / 2 + (real 21 / 2 - 41 / 2) / 221"
    using maskAlpha_vertical [OF s pos, of "41 / 2" "1 / 2"] d by simp
  ultimately show ?thesis by simp
qed

text \<open>
  Claim C6, amended. For the linear shape the axis runs through the centre
  \<open>(w/2, h/2)\<close> in the direction \<open>(cos \<theta>, sin \<theta>)\<close> with \<open>\<theta>\<close> the angle minus 90
  degrees in radians, from the centre minus to the centre plus the direction times half the
  diagonal \<open>sqrt (w\<^sup>2 + h\<^sup>2)\<close>. With angle 180, start 0, end 100 and no inversion the
  factor at height \<open>py\<close> of the bitmap is \<open>1/2 + (h/2 - py) / diagonal\<close>: it does not
  increase down the vertical axis, and it stays strictly between 0 and 1 on the whole
  bitmap.
\<close>

theorem linear_axis_and_vertical_fade:
  "(type s = linear \<longrightarrow>
      prepareGradient s w h =
        Inr (LinearGradient
          (real w / 2 - cos ((angle s - 90) * (pi / 180)) * (sqrt (real w * real w + real h * real h) / 2))
          (real h / 2 - sin ((angle s - 90) * (pi / 180)) * (sqrt (real w * real w + real h * real h) / 2))
          (real w / 2 + cos ((angle s - 90) * (pi / 180)) * (sqrt (real w * real w + real h * real h) / 2))
          (real h / 2 + sin ((angle s - 90) * (pi / 180)) * (sqrt (real w * real w + real h * real h) / 2))
          [])) \<and>
   (type s = linear \<and> angle s = 180 \<and> startPoint s = 0 \<and> endPoint s = 100 \<and> \<not> invert s \<and>
    0 < w \<and> 0 < h \<and> 0 \<le> py \<and> py \<le> py' \<and> py' \<le> real h \<longrightarrow>
      maskAlpha s w h px py = 1 / 2 + (real h / 2 - py) / sqrt (real w * real w + real h * real h) \<and>
      maskAlpha s w h px' py' \<le> maskAlpha s w h px py \<and>
      maskAlpha s w h px py < 1 \<and> 0 < maskAlpha s w h px' py')"
proof (intro conjI impI)
  assume "type s = linear"
  then show "prepareGradient s w h =
        Inr (LinearGradient
          (real w / 2 - cos ((angle s - 90) * (pi / 180)) * (sqrt (real w * real w + real h * real h) / 2))
          (real h / 2 - sin ((angle s - 90) * (pi / 180)) * (sqrt (real w * real w + real h * real h) / 2))
          (real w / 2 + cos ((angle s - 90) * (pi / 180)) * (sqrt (real w * real w + real h * real h) / 2))
          (real h / 2 + sin ((angle s - 90) * (pi / 180)) * (sqrt (real w * real w + real h * real h) / 2))
          [])"
    by (simp add: prepareGradient_def Let_def createLinearGradient_def)
next
  assume a: "type s = linear \<and> angle s = 180 \<and> startPoint s = 0 \<and> endPoint s = 100 \<and> \<not> invert s \<and>
    0 < w \<and> 0 < h \<and> 0 \<le> py \<and> py \<le> py' \<and> py' \<le> real h"
  define d where "d = sqrt (real w * real w + real h * real h)"
  from a have s: "type s = linear" "angle s = 180" "startPoint s = 0" "endPoint s = 100"
    "\<not> invert s" and pos: "0 < w \<or> 0 < h" and w: "0 < w"
    and y: "0 \<le> py" "py \<le> real h" and y': "0 \<le> py'" "py' \<le> real h" and yy: "py \<le> py'"
    by auto
  have d: "0 < d" "real h < d"
    using diagonal_pos [OF pos] height_less_diagonal [OF w, of h] by (simp_all add: d_def)
  have m: "maskAlpha s w h px py = 1 / 2 + (real h / 2 - py) / d"
    unfolding d_def by (rule maskAlpha_vertical [OF s pos y])
  have m': "maskAlpha s w h px' py' = 1 / 2 + (real h / 2 - py') / d"
    unfolding d_def by (rule maskAlpha_vertical [OF s pos y'])
  show "maskAlpha s w h px py = 1 / 2 + (real h / 2 - py) / sqrt (real w * real w + real h * real h)"
    using m by (simp only: d_def)
  have "(real h / 2 - py') / d \<le> (real h / 2 - py) / d"
    using yy d(1) by (simp add: divide_right_mono)
  then show "maskAlpha s w h px' py' \<le> maskAlpha s w h px py"
    unfolding m m' by simp
  have "(real h / 2 - py) / d < 1 / 2"
    using y d by (simp add: field_simps)
  then show "maskAlpha s w h px py < 1" unfolding m by linarith
  have "- (1 / 2) < (real h / 2 - py') / d"
    using y' d by (simp add: field_simps)
  then show "0 < maskAlpha s w h px' py'" unfolding m' by linarith
qed

theorem linear_axis_and_vertical_fade_witness:
  "prepareGradient (initialSettings\<lparr>angle := 90\<rparr>) 4 3 = Inr (LinearGradient (- (1 / 2)) (3 / 2) (9 / 2) (3 / 2) []) \<and>
   maskAlpha (initialSettings\<lparr>startPoint := 0, endPoint := 100\<rparr>) 4 3 (1 / 2) (1 / 2) = 7 / 10 \<and>
   maskAlpha (initialSettings\<lparr>startPoint := 0, endPoint := 100\<rparr>) 4 3 (7 / 2) (5 / 2)
     \<le> maskAlpha (initialSettings\<lparr>startPoint := 0, endPoint := 100\<rparr>) 4 3 (1 / 2) (1 / 2) \<and>
   maskAlpha (initialSettings\<lparr>startPoint := 0, endPoint := 100\<rparr>) 4 3 (1 / 2) (1 / 2) < 1 \<and>
   0 < maskAlpha (initialSettings\<lparr>startPoint := 0, endPoint := 100\<rparr>) 4 3 (7 / 2) (5 / 2)"
proof -
  let ?s = "initialSettings\<lparr>startPoint := 0, endPoint := 100\<rparr>"
  have "sqrt (25 :: real) = 5" by (rule real_sqrt_unique) simp_all
  then have d: "sqrt (real 4 * real 4 + real 3 * real 3) = 5" by simp
  have a: "prepareGradient (initialSettings\<lparr>angle := 90\<rparr>) 4 3
      = Inr (LinearGradient (- (1 / 2)) (3 / 2) (9 / 2) (3 / 2) [])"
    using linear_axis_and_vertical_fade [of "initialSettings\<lparr>angle := 90\<rparr>" 4 3] d
    by (simp add: initialSettings_def)
  have b: "maskAlpha ?s 4 3 (1 / 2) (1 / 2) = 7 / 10 \<and>
      maskAlpha ?s 4 3 (7 / 2) (5 / 2) \<le> maskAlpha ?s 4 3 (1 / 2) (1 / 2) \<and>
      maskAlpha ?s 4 3 (1 / 2) (1 / 2) < 1 \<and> 0 < maskAlpha ?s 4 3 (7 / 2) (5 / 2)"
    using linear_axis_and_vertical_fade [of ?s 4 3 "1 / 2" "5 / 2" "1 / 2" "7 / 2"] d
    by (simp add: initialSettings_def)
  from a b show ?thesis by blast
qed

subsection \<open>A bitmap of one pixel\<close>

text \<open>
  Claim C8 as stated fails: neither length has a lower bound of 1. For a bitmap of one
  pixel the radius is \<open>1/2\<close>, and under the linear gradient the pixel has the axis
  parameter \<open>1/2\<close>, not 0.
\<close>

theorem one_pixel_counterexample:
  "prepareGradient (initialSettings\<lparr>type := radial\<rparr>) 1 1
     = Inr (RadialGradient (1 / 2) (1 / 2) 0 (1 / 2) (1 / 2) (1 / 2) []) \<and>
   axisParam initialSettings 1 1 (1 / 2) (1 / 2) = Some (1 / 2)"
  by (simp add: axisParam_linear prepareGradient_def Let_def createRadialGradient_def
      initialSettings_def)

text \<open>
  Claim C8, amended. The diagonal and the radius have no guard, and need none: on a
  bitmap with positive width and height both are positive and every point has an axis
  parameter, so nothing is divided by zero. On a bitmap of one pixel the effect returns
  one pixel whose alpha is the source alpha times the factor at \<open>t = 0\<close> for the radial
  shape and at \<open>t = 1/2\<close> for the linear shape (the pixel is sampled at its centre, which
  is the centre of the bitmap).
\<close>

theorem one_pixel_bitmap:
  "(0 < w \<and> 0 < h \<longrightarrow>
      0 < sqrt (real w * real w + real h * real h) \<and> 0 < max (real w) (real h) / 2 \<and>
      (\<exists>t. axisParam s w h px py = Some t)) \<and>
   (has2d c \<and> width img = 1 \<and> height img = 1 \<longrightarrow>
      (\<exists>c'. composite (Some c) (Some img) s = Inr (Some c') \<and>
         width c' = 1 \<and> height c' = 1 \<and>
         pxA (pixel c' 0 0) =
           quantise (real (unat (pxA (pixel img 0 0))) *
             alphaFactor s (if type s = radial then 0 else 1 / 2))))"
proof (intro conjI impI)
  assume a: "0 < w \<and> 0 < h"
  then show "0 < sqrt (real w * real w + real h * real h)"
    by (intro diagonal_pos) simp
  from a show "0 < max (real w) (real h) / 2" by (simp add: less_max_iff_disj)
  from a show "\<exists>t. axisParam s w h px py = Some t"
    by (intro axisParam_defined) simp
next
  assume a: "has2d c \<and> width img = 1 \<and> height img = 1"
  then obtain c' where c': "composite (Some c) (Some img) s = Inr (Some c')"
    "width c' = width img" "height c' = height img"
    "\<forall>x y. pixel c' x y =
        (if x < width img \<and> y < height img
         then faded (pixel img x y)
                (maskAlpha s (width img) (height img) (real x + 1 / 2) (real y + 1 / 2))
         else transparentBlack)"
    using composite_ok [of c img s] by blast
  have pos: "0 < (1 :: nat) \<or> 0 < (1 :: nat)" by simp
  have "axisParam s 1 1 (1 / 2) (1 / 2) = Some (if type s = radial then 0 else 1 / 2)"
  proof (cases "type s")
    case linear
    then show ?thesis using axisParam_linear [OF linear pos, of "1 / 2" "1 / 2"] by simp
  next
    case radial
    then show ?thesis using axisParam_radial [OF radial pos, of "1 / 2" "1 / 2"] by simp
  qed
  then have "maskAlpha s 1 1 (1 / 2) (1 / 2) = alphaFactor s (if type s = radial then 0 else 1 / 2)"
    by (simp add: maskAlpha_eq)
  with c'(4) a have "pxA (pixel c' 0 0) =
      quantise (real (unat (pxA (pixel img 0 0))) *
        alphaFactor s (if type s = radial then 0 else 1 / 2))"
    by simp
  with c'(1-3) a show "\<exists>c'. composite (Some c) (Some img) s = Inr (Some c') \<and>
         width c' = 1 \<and> height c' = 1 \<and>
         pxA (pixel c' 0 0) =
           quantise (real (unat (pxA (pixel img 0 0))) *
             alphaFactor s (if type s = radial then 0 else 1 / 2))"
    by auto
qed

theorem one_pixel_bitmap_witness:
  "(\<exists>t. axisParam (initialSettings\<lparr>type := radial\<rparr>) 1 1 (1 / 2) (1 / 2) = Some t) \<and>
   (\<exists>c'. composite (Some freshCanvas)
           (Some (plainImage 1 1 \<lparr>pxR = 200, pxG = 100, pxB = 50, pxA = 255\<rparr>))
           (initialSettings\<lparr>type := radial\<rparr>) = Inr (Some c') \<and>
      width c' = 1 \<and> height c' = 1 \<and>
      pxA (pixel c' 0 0) = quantise (255 * alphaFactor (initialSettings\<lparr>type := radial\<rparr>) 0))"
proof -
  let ?s = "initialSettings\<lparr>type := radial\<rparr>"
  let ?img = "plainImage 1 1 \<lparr>pxR = 200, pxG = 100, pxB = 50, pxA = 255\<rparr>"
  have h: "has2d freshCanvas \<and> width ?img = 1 \<and> height ?img = 1"
    by (simp add: freshCanvas_def plainImage_def)
  have r: "type ?s = radial" by (simp add: initialSettings_def)
  from one_pixel_bitmap [of 1 1 ?s "1 / 2" "1 / 2" freshCanvas ?img] h r
  show ?thesis by (simp add: plainImage_def)
qed

subsection \<open>Size and colour channels\<close>





end
